theory Spec2Isabelle
  imports Complex_Main
begin

section \<open>Arrays and meshes\<close>

text \<open>
  A two-dimensional numpy array is its shape together with its elements in row-major
  order; element \<open>[i, j]\<close> is at position \<open>i * cols + j\<close>. Finite floats are
  idealised as reals. A mesh is a vertex list and a list of index triples.
\<close>

record ndarray =
  nrows :: nat
  ncols :: nat
  flat :: "real list"

type_synonym vertex = "real \<times> real \<times> real"
type_synonym face = "nat \<times> nat \<times> nat"
type_synonym mesh = "vertex list \<times> face list"

text \<open>An elevation zone is the pair of its lower and upper end.\<close>

type_synonym zone = "real \<times> real"

definition at2 :: "ndarray \<Rightarrow> nat \<Rightarrow> nat \<Rightarrow> real" where
  "at2 a i j = flat a ! (i * ncols a + j)"


datatype py_error = IndexError | ValueError | ZeroDivisionError | OverflowError



section \<open>Floating-point results that are not finite\<close>









section \<open>Configuration (config/parser.py)\<close>

text \<open>
  The dataclasses of the parser. Both \<open>HeightSteppingConfig\<close> and \<open>ColorConfig\<close> have a
  field \<open>enabled\<close>; the two are told apart here by a prefix. \<open>Config.from_dict\<close> always
  fills \<open>height_stepping\<close> and \<open>colors\<close>, so they are not optional.
\<close>

record BoundsConfig =
  north :: real
  south :: real
  east :: real
  west :: real

record LocationConfig =
  address :: "string option"
  radius_km :: "real option"
  bounds :: "BoundsConfig option"

record OutputConfig =
  filename :: string
  printer_bed_mm :: int
  format :: string

record HeightSteppingConfig =
  hs_enabled :: bool
  step_height_mm :: real
  smooth_transitions :: bool

record ColorConfig =
  colors_enabled :: bool
  num_colors :: int
  color_mode :: string
  color_names :: "string list option"
  layer_thickness_mm :: real

record TerrainConfig =
  resolution_meters :: int
  vertical_exaggeration :: real
  base_thickness_mm :: real
  height_stepping :: HeightSteppingConfig
  colors :: ColorConfig

record Config =
  location :: LocationConfig
  output' :: OutputConfig
  terrain :: TerrainConfig

text \<open>\<open>str.lower\<close> on ASCII text (the format names are ASCII).\<close>

definition lower_char :: "char \<Rightarrow> char" where
  "lower_char c =
     (let n = (of_char c :: nat) in if 65 \<le> n \<and> n \<le> 90 then char_of (n + 32) else c)"

definition lower :: "string \<Rightarrow> string" where
  "lower s = map lower_char s"

text \<open>Truth value of an optional string: \<open>None\<close> and the empty string are false.\<close>

definition truthy_str :: "string option \<Rightarrow> bool" where
  "truthy_str s = (case s of None \<Rightarrow> False | Some t \<Rightarrow> t \<noteq> [])"

text \<open>
  \<open>Config.validate\<close>: every failed check raises \<open>ValueError\<close>; the checks run in the
  order of the source and the first that fails decides. A \<open>BoundsConfig\<close> object is
  always true as a condition.
\<close>

definition valid_formats :: "string list" where
  "valid_formats = [''stl'', ''3mf'', ''amf'', ''obj'']"

definition validate :: "Config \<Rightarrow> py_error + unit" where
  "validate self =
     (if address (location self) = None \<and> bounds (location self) = None then Inl ValueError
      else if truthy_str (address (location self)) \<and> radius_km (location self) = None
        then Inl ValueError
      else if bounds (location self) \<noteq> None \<and> truthy_str (address (location self))
        then Inl ValueError
      else if (case bounds (location self) of None \<Rightarrow> False | Some b \<Rightarrow> north b \<le> south b)
        then Inl ValueError
      else if (case bounds (location self) of None \<Rightarrow> False | Some b \<Rightarrow> east b \<le> west b)
        then Inl ValueError
      else if colors_enabled (colors (terrain self))
              \<and> \<not> (1 \<le> num_colors (colors (terrain self)) \<and> num_colors (colors (terrain self)) \<le> 6)
        then Inl ValueError
      else if colors_enabled (colors (terrain self))
              \<and> color_mode (colors (terrain self)) \<notin> set [''elevation'', ''slope'']
        then Inl ValueError
      else if hs_enabled (height_stepping (terrain self))
              \<and> step_height_mm (height_stepping (terrain self)) \<le> 0
        then Inl ValueError
      else if lower (format (output' self)) \<notin> set valid_formats then Inl ValueError
      else Inr ())"

text \<open>A valid configuration with the defaults of the dataclasses, for the examples.\<close>

definition example_config :: Config where
  "example_config =
     \<lparr>location = \<lparr>address = None, radius_km = None,
                   bounds = Some \<lparr>north = 41, south = 40, east = -73, west = -74\<rparr>\<rparr>,
      output' = \<lparr>filename = ''out.stl'', printer_bed_mm = 220, format = ''stl''\<rparr>,
      terrain = \<lparr>resolution_meters = 30, vertical_exaggeration = 2, base_thickness_mm = 5,
                  height_stepping = \<lparr>hs_enabled = False, step_height_mm = 2,
                                     smooth_transitions = True\<rparr>,
                  colors = \<lparr>colors_enabled = False, num_colors = 1,
                            color_mode = ''elevation'', color_names = None,
                            layer_thickness_mm = 2\<rparr>\<rparr>\<rparr>"

subsection \<open>The command (main.py)\<close>

text \<open>
  \<open>main\<close> answers the two cache commands before it reads the configuration. Otherwise
  it validates the loaded configuration and only then runs the rest of the request
  (services, elevation fetch, mesh generation, export), which is the parameter
  \<open>pipeline\<close> here. Any exception is re-raised as a \<open>ClickException\<close>.
\<close>

datatype main_error = ClickException py_error

datatype 'a main_result = CacheCleared | CacheInfoShown | Completed 'a

definition main :: "bool \<Rightarrow> bool \<Rightarrow> Config \<Rightarrow> (Config \<Rightarrow> py_error + 'a) \<Rightarrow> main_error + 'a main_result" where
  "main clear_cache cache_info config pipeline =
     (if clear_cache then Inr CacheCleared
      else if cache_info then Inr CacheInfoShown
      else case validate config of
             Inl e \<Rightarrow> Inl (ClickException e)
           | Inr _ \<Rightarrow> (case pipeline config of
                         Inl e \<Rightarrow> Inl (ClickException e)
                       | Inr r \<Rightarrow> Inr (Completed r)))"

section \<open>MeshGenerator (mesh/generator.py)\<close>

subsection \<open>\<open>_latlon_to_meters\<close>\<close>



subsection \<open>\<open>_normalize_to_printer_bed\<close>\<close>




subsection \<open>\<open>_create_surface_mesh\<close>\<close>

text \<open>The two triangles appended for the quad whose upper-left cell is \<open>(i, j)\<close>.\<close>

definition quad_faces :: "nat \<Rightarrow> nat \<Rightarrow> nat \<Rightarrow> face list" where
  "quad_faces cols i j =
     (let v1 = i * cols + j;
          v2 = i * cols + (j + 1);
          v3 = (i + 1) * cols + j;
          v4 = (i + 1) * cols + (j + 1)
      in [(v1, v2, v3), (v2, v4, v3)])"

text \<open>
  \<open>for i in range(rows - 1): for j in range(cols - 1)\<close>; \<open>range\<close> of a
  non-positive number is empty, as \<open>[0..<n - 1]\<close> is for \<open>n = 0\<close>.
\<close>

definition surface_faces :: "nat \<Rightarrow> nat \<Rightarrow> face list" where
  "surface_faces rows cols =
     concat (map (\<lambda>i. concat (map (\<lambda>j. quad_faces cols i j) [0..<cols - 1])) [0..<rows - 1])"

definition grid_vertices :: "ndarray \<Rightarrow> ndarray \<Rightarrow> ndarray \<Rightarrow> vertex list" where
  "grid_vertices x_grid y_grid z_grid =
     concat (map (\<lambda>i. map (\<lambda>j. (at2 x_grid i j, at2 y_grid i j, at2 z_grid i j))
                          [0..<ncols x_grid]) [0..<nrows x_grid])"

definition create_surface_mesh :: "ndarray \<Rightarrow> ndarray \<Rightarrow> ndarray \<Rightarrow> mesh" where
  "create_surface_mesh x_grid y_grid z_grid =
     (grid_vertices x_grid y_grid z_grid, surface_faces (nrows x_grid) (ncols x_grid))"

subsection \<open>\<open>_get_ordered_boundary_indices\<close>\<close>


subsection \<open>\<open>_add_base\<close>\<close>



subsection \<open>\<open>generate_mesh\<close>\<close>



section \<open>Zone assignment (mesh/simple_multicolor.py, mesh/multicolor.py)\<close>

fun first_containing :: "real \<Rightarrow> zone list \<Rightarrow> nat \<Rightarrow> nat option" where
  "first_containing elevation [] idx = None"
| "first_containing elevation ((zone_min, zone_max) # zs) idx =
     (if zone_min \<le> elevation \<and> elevation \<le> zone_max then Some (idx + 1)
      else first_containing elevation zs (idx + 1))"

definition center_distances :: "real \<Rightarrow> zone list \<Rightarrow> real list" where
  "center_distances elevation color_zones =
     map (\<lambda>(zone_min, zone_max). \<bar>elevation - (zone_min + zone_max) / 2\<bar>) color_zones"

fun list_index :: "'a list \<Rightarrow> 'a \<Rightarrow> py_error + nat" where
  "list_index [] v = Inl ValueError"
| "list_index (x # xs) v =
     (if x = v then Inr 0
      else case list_index xs v of Inl e \<Rightarrow> Inl e | Inr k \<Rightarrow> Inr (k + 1))"

definition py_min :: "real list \<Rightarrow> py_error + real" where
  "py_min xs = (if xs = [] then Inl ValueError else Inr (min_list xs))"

definition assign_elevation_to_zone_simple :: "real \<Rightarrow> zone list \<Rightarrow> py_error + nat" where
  "assign_elevation_to_zone_simple elevation zones =
     (let color_zones = tl zones in
      case first_containing elevation color_zones 0 of
        Some k \<Rightarrow> Inr k
      | None \<Rightarrow>
          (let distances = center_distances elevation color_zones in
           case py_min distances of
             Inl e \<Rightarrow> Inl e
           | Inr m \<Rightarrow> (case list_index distances m of Inl e \<Rightarrow> Inl e | Inr k \<Rightarrow> Inr (k + 1))))"

fun nearest_scan :: "real \<Rightarrow> zone list \<Rightarrow> nat \<Rightarrow> real option \<times> nat \<Rightarrow> real option \<times> nat" where
  "nearest_scan elevation [] idx st = st"
| "nearest_scan elevation ((zone_min, zone_max) # zs) idx (min_distance, best_zone) =
     (let zone_center = (zone_min + zone_max) / 2;
          distance = \<bar>elevation - zone_center\<bar>
      in if (case min_distance of None \<Rightarrow> True | Some m \<Rightarrow> distance < m)
         then nearest_scan elevation zs (idx + 1) (Some distance, idx + 1)
         else nearest_scan elevation zs (idx + 1) (min_distance, best_zone))"

definition assign_elevation_to_zone :: "real \<Rightarrow> zone list \<Rightarrow> nat" where
  "assign_elevation_to_zone elevation all_zones =
     (let color_zones = tl all_zones in
      case first_containing elevation color_zones 0 of
        Some k \<Rightarrow> k
      | None \<Rightarrow> snd (nearest_scan elevation color_zones 0 (None, 1)))"

section \<open>Colour zones (mesh/multicolor.py, mesh/simple_multicolor.py)\<close>







section \<open>Height stepping (mesh/multicolor.py)\<close>






section \<open>ColoredMeshExporter (mesh/colored_export.py)\<close>










section \<open>SimpleMultiColorMeshGenerator (mesh/simple_multicolor.py)\<close>

subsection \<open>\<open>_is_boundary_point\<close>\<close>




subsection \<open>\<open>_create_layer_faces\<close>\<close>





subsection \<open>\<open>_create_color_layer\<close>\<close>





subsection \<open>\<open>_create_base_layer\<close>\<close>


subsection \<open>\<open>generate_multi_color_meshes\<close>\<close>





section \<open>Facts about the example configurations\<close>





section \<open>Properties of the surface mesh\<close>

lemma length_concat_const:
  "\<forall>x \<in> set xs. length (f x) = k \<Longrightarrow> length (concat (map f xs)) = length xs * k"
  by (induction xs) auto

lemma length_quad_faces: "length (quad_faces cols i j) = 2"
  by (simp add: quad_faces_def Let_def)

lemma length_surface_faces: "length (surface_faces rows cols) = 2 * (rows - 1) * (cols - 1)"
proof -
  have inner: "length (concat (map (\<lambda>j. quad_faces cols i j) [0..<cols - 1])) = length [0..<cols - 1] * 2" for i
    by (rule length_concat_const) (simp only: length_quad_faces, simp)
  have "length (surface_faces rows cols) = length [0..<rows - 1] * (length [0..<cols - 1] * 2)"
    unfolding surface_faces_def
    by (rule length_concat_const) (simp only: inner, simp)
  then show ?thesis by simp
qed

lemma length_grid_vertices:
  "length (grid_vertices x y z) = nrows x * ncols x"
proof -
  have "length (grid_vertices x y z) = length [0..<nrows x] * ncols x"
    unfolding grid_vertices_def
    by (rule length_concat_const) simp
  then show ?thesis by simp
qed

lemma surface_faces_mem:
  "f \<in> set (surface_faces rows cols) \<longleftrightarrow>
     (\<exists>i j. i < rows - 1 \<and> j < cols - 1 \<and> f \<in> set (quad_faces cols i j))"
  unfolding surface_faces_def by (simp del: One_nat_def) fastforce

lemma quad_index_bound:
  fixes i j rows cols :: nat
  assumes "i < rows - 1" "j < cols - 1"
  shows "(i + 1) * cols + (j + 1) < rows * cols"
proof -
  from assms have "i + 2 \<le> rows" "j + 2 \<le> cols" by simp_all
  then have "(i + 1) * cols + cols \<le> rows * cols"
    by (metis Suc_eq_plus1 add_2_eq_Suc' mult_Suc mult_le_mono1 add.commute)
  with \<open>j + 2 \<le> cols\<close> show ?thesis by linarith
qed

lemma surface_face_valid:
  assumes "(a, b, c) \<in> set (surface_faces rows cols)"
  shows "a \<noteq> b \<and> b \<noteq> c \<and> a \<noteq> c \<and> a < rows * cols \<and> b < rows * cols \<and> c < rows * cols"
proof -
  from assms obtain i j where ij: "i < rows - 1" "j < cols - 1"
    and f: "(a, b, c) \<in> set (quad_faces cols i j)"
    unfolding surface_faces_mem by blast
  have top: "(i + 1) * cols + (j + 1) < rows * cols"
    using quad_index_bound [OF ij] .
  from ij have c2: "2 \<le> cols" by simp
  from f consider "a = i * cols + j \<and> b = i * cols + (j + 1) \<and> c = (i + 1) * cols + j"
    | "a = i * cols + (j + 1) \<and> b = (i + 1) * cols + (j + 1) \<and> c = (i + 1) * cols + j"
    by (auto simp: quad_faces_def Let_def)
  then show ?thesis
  proof cases
    case 1
    with top c2 ij show ?thesis by simp
  next
    case 2
    with top c2 ij show ?thesis by simp
  qed
qed

text \<open>
  C2. For every grid with at least two rows and two columns, the surface mesher returns
  one vertex per cell and exactly \<open>2 * (rows - 1) * (cols - 1)\<close> faces; the three
  indices of every face are pairwise distinct and are valid row-major vertex indices
  (below \<open>rows * cols\<close>).
\<close>

theorem surface_mesh_face_count_and_validity:
  assumes "2 \<le> nrows x" "2 \<le> ncols x"
  shows "length (fst (create_surface_mesh x y z)) = nrows x * ncols x
       \<and> length (snd (create_surface_mesh x y z)) = 2 * (nrows x - 1) * (ncols x - 1)
       \<and> (\<forall>(a, b, c) \<in> set (snd (create_surface_mesh x y z)).
             a \<noteq> b \<and> b \<noteq> c \<and> a \<noteq> c
           \<and> a < nrows x * ncols x \<and> b < nrows x * ncols x \<and> c < nrows x * ncols x)"
  using surface_face_valid [of _ _ _ "nrows x" "ncols x"]
  by (auto simp: create_surface_mesh_def length_grid_vertices length_surface_faces)

theorem surface_mesh_face_count_and_validity_witness:
  "2 \<le> nrows \<lparr>nrows = 2, ncols = 3, flat = [0, 1, 2, 0, 1, 2]\<rparr>
   \<and> 2 \<le> ncols \<lparr>nrows = 2, ncols = 3, flat = [0, 1, 2, 0, 1, 2]\<rparr>
   \<and> length (snd (create_surface_mesh
          \<lparr>nrows = 2, ncols = 3, flat = [0, 1, 2, 0, 1, 2]\<rparr>
          \<lparr>nrows = 2, ncols = 3, flat = [0, 0, 0, 1, 1, 1]\<rparr>
          \<lparr>nrows = 2, ncols = 3, flat = [5, 6, 7, 5, 6, 7]\<rparr>)) = 4
   \<and> snd (create_surface_mesh
          \<lparr>nrows = 2, ncols = 3, flat = [0, 1, 2, 0, 1, 2]\<rparr>
          \<lparr>nrows = 2, ncols = 3, flat = [0, 0, 0, 1, 1, 1]\<rparr>
          \<lparr>nrows = 2, ncols = 3, flat = [5, 6, 7, 5, 6, 7]\<rparr>)
       = [(0, 1, 3), (1, 4, 3), (1, 2, 4), (2, 5, 4)]"
proof -
  have faces: "surface_faces 2 3 = [(0, 1, 3), (1, 4, 3), (1, 2, 4), (2, 5, 4)]"
    by (simp add: surface_faces_def quad_faces_def upt_rec)
  from surface_mesh_face_count_and_validity
    [of "\<lparr>nrows = 2, ncols = 3, flat = [0, 1, 2, 0, 1, 2]\<rparr>"
        "\<lparr>nrows = 2, ncols = 3, flat = [0, 0, 0, 1, 1, 1]\<rparr>"
        "\<lparr>nrows = 2, ncols = 3, flat = [5, 6, 7, 5, 6, 7]\<rparr>"]
  show ?thesis by (simp add: create_surface_mesh_def faces)
qed

section \<open>Properties of zone assignment\<close>

lemma first_containing_Some:
  "first_containing e zs i = Some r \<Longrightarrow>
     \<exists>k < length zs. r = i + k + 1 \<and> fst (zs ! k) \<le> e \<and> e \<le> snd (zs ! k)
       \<and> (\<forall>k' < k. \<not> (fst (zs ! k') \<le> e \<and> e \<le> snd (zs ! k')))"
proof (induction e zs i rule: first_containing.induct)
  case (1 e idx)
  then show ?case by simp
next
  case (2 e zmin zmax zs idx)
  show ?case
  proof (cases "zmin \<le> e \<and> e \<le> zmax")
    case True
    with 2 show ?thesis by (intro exI [of _ 0]) auto
  next
    case False
    with 2 have r: "first_containing e zs (idx + 1) = Some r" by simp
    from 2(1)[OF False r] obtain k where k: "k < length zs" "r = idx + 1 + k + 1"
      "fst (zs ! k) \<le> e" "e \<le> snd (zs ! k)"
      "\<forall>k' < k. \<not> (fst (zs ! k') \<le> e \<and> e \<le> snd (zs ! k'))" by blast
    have nth: "\<not> (fst (((zmin, zmax) # zs) ! k') \<le> e \<and> e \<le> snd (((zmin, zmax) # zs) ! k'))"
      if "k' < Suc k" for k'
      using that False k(5) by (cases k') auto
    show ?thesis
      using k(1-4) nth by (intro exI [of _ "Suc k"]) auto
  qed
qed

lemma first_containing_None:
  "first_containing e zs i = None \<longleftrightarrow> (\<forall>z \<in> set zs. \<not> (fst z \<le> e \<and> e \<le> snd z))"
  by (induction e zs i rule: first_containing.induct) auto

lemma list_index_first:
  "v \<in> set xs \<Longrightarrow> \<exists>k < length xs. list_index xs v = Inr k \<and> xs ! k = v \<and> (\<forall>j < k. xs ! j \<noteq> v)"
proof (induction xs)
  case Nil
  then show ?case by simp
next
  case (Cons x xs)
  show ?case
  proof (cases "x = v")
    case True
    then show ?thesis by (intro exI [of _ 0]) simp
  next
    case False
    with Cons obtain k where k: "k < length xs" "list_index xs v = Inr k" "xs ! k = v"
      "\<forall>j < k. xs ! j \<noteq> v" by auto
    have "(x # xs) ! j \<noteq> v" if "j < Suc k" for j
      using that False k(4) by (cases j) auto
    with k False show ?thesis by (intro exI [of _ "Suc k"]) auto
  qed
qed


lemma list_index_min:
  fixes ds :: "real list"
  assumes "ds \<noteq> []"
  shows "\<exists>k < length ds. list_index ds (min_list ds) = Inr k
          \<and> (\<forall>j < length ds. ds ! k \<le> ds ! j) \<and> (\<forall>j < k. ds ! k < ds ! j)"
proof -
  have m: "min_list ds = Min (set ds)" using assms by (rule min_list_Min)
  then have "min_list ds \<in> set ds" using assms by simp
  from list_index_first [OF this] obtain k where k: "k < length ds"
    "list_index ds (min_list ds) = Inr k" "ds ! k = min_list ds" "\<forall>j < k. ds ! j \<noteq> min_list ds"
    by blast
  have le: "ds ! k \<le> ds ! j" if "j < length ds" for j
    using that k(3) m by simp
  have "ds ! k < ds ! j" if "j < k" for j
  proof -
    from that k(1) have "ds ! k \<le> ds ! j" by (intro le) simp
    moreover from that k(3,4) have "ds ! j \<noteq> ds ! k" by simp
    ultimately show ?thesis by simp
  qed
  with k le show ?thesis by blast
qed

lemma list_index_min_Cons:
  fixes ds :: "real list"
  assumes "ds \<noteq> []" "list_index ds (min_list ds) = Inr k"
  shows "min_list (d # ds) = min d (min_list ds)"
    and "list_index (d # ds) (min_list (d # ds)) = (if min_list ds < d then Inr (k + 1) else Inr 0)"
proof -
  show ml: "min_list (d # ds) = min d (min_list ds)"
    using assms(1) by (cases ds) simp_all
  show "list_index (d # ds) (min_list (d # ds)) = (if min_list ds < d then Inr (k + 1) else Inr 0)"
    unfolding ml using assms(2) by (auto simp: min_def simp del: min_list.simps)
qed

lemma center_distances_Cons:
  "center_distances e ((zmin, zmax) # zs) = \<bar>e - (zmin + zmax) / 2\<bar> # center_distances e zs"
  by (simp add: center_distances_def)

lemma center_distances_Nil [simp]: "center_distances e zs = [] \<longleftrightarrow> zs = []"
  by (simp add: center_distances_def)

lemma nearest_scan_Some:
  "snd (nearest_scan e zs idx (Some m, b)) =
     (if zs \<noteq> [] \<and> min_list (center_distances e zs) < m
      then (case list_index (center_distances e zs) (min_list (center_distances e zs)) of
              Inr k \<Rightarrow> idx + k + 1 | Inl _ \<Rightarrow> b)
      else b)"
proof (induction zs arbitrary: idx m b)
  case Nil
  then show ?case by simp
next
  case (Cons z zs)
  obtain zmin zmax where z: "z = (zmin, zmax)" by (cases z)
  define d where "d = \<bar>e - (zmin + zmax) / 2\<bar>"
  show ?case
  proof (cases "zs = []")
    case True
    then show ?thesis by (simp add: z center_distances_def Let_def)
  next
    case False
    then obtain k where k: "list_index (center_distances e zs) (min_list (center_distances e zs)) = Inr k"
      using list_index_min [of "center_distances e zs"] by auto
    from False have ne: "center_distances e zs \<noteq> []" by simp
    note c = list_index_min_Cons [OF ne k, of d]
    show ?thesis
      unfolding z center_distances_Cons d_def [symmetric]
      using Cons [of "idx + 1"] False k
      by (simp add: c Let_def d_def [symmetric] min_def del: min_list.simps)
  qed
qed

lemma nearest_scan_None:
  assumes "zs \<noteq> []"
  shows "snd (nearest_scan e zs idx (None, b)) =
     (case list_index (center_distances e zs) (min_list (center_distances e zs)) of
        Inr k \<Rightarrow> idx + k + 1 | Inl _ \<Rightarrow> b)"
proof -
  from assms obtain z zs' where Cons: "zs = z # zs'" by (cases zs) auto
  obtain zmin zmax where z: "z = (zmin, zmax)" by (cases z)
  define d where "d = \<bar>e - (zmin + zmax) / 2\<bar>"
  show ?thesis
  proof (cases "zs' = []")
    case True
    then show ?thesis using Cons by (simp add: z center_distances_def)
  next
    case False
    then obtain k where k: "list_index (center_distances e zs') (min_list (center_distances e zs')) = Inr k"
      using list_index_min [of "center_distances e zs'"] by auto
    from False have ne: "center_distances e zs' \<noteq> []" by simp
    note c = list_index_min_Cons [OF ne k, of d]
    show ?thesis
      unfolding Cons z center_distances_Cons d_def [symmetric]
      using False k
      by (simp add: c Let_def d_def [symmetric] min_def nearest_scan_Some del: min_list.simps)
  qed
qed


lemma center_distances_nth:
  "j < length zs \<Longrightarrow> center_distances e zs ! j = \<bar>e - (fst (zs ! j) + snd (zs ! j)) / 2\<bar>"
  by (simp add: center_distances_def case_prod_unfold)

text \<open>
  C3. For a zone list of length \<open>N + 1\<close> with \<open>N \<ge> 1\<close> (base zone at index 0, colour
  zones at \<open>1..N\<close>) and every real elevation, both implementations of
  \<open>_assign_elevation_to_zone\<close> return the same band index \<open>r\<close> with \<open>1 \<le> r \<le> N\<close>
  and without raising. If some colour band's closed interval contains the elevation,
  \<open>r\<close> is the lowest-indexed such band, so a value on a shared boundary goes to the
  lower band. If none does, \<open>r\<close> is the lowest-indexed band among those whose centre
  is nearest to the elevation.
\<close>

theorem assign_elevation_to_zone_total:
  assumes len: "length zones = N + 1" and N: "1 \<le> N"
  shows "\<exists>r. assign_elevation_to_zone_simple e zones = Inr r
           \<and> assign_elevation_to_zone e zones = r
           \<and> 1 \<le> r \<and> r \<le> N
           \<and> ((\<exists>k. 1 \<le> k \<and> k \<le> N \<and> fst (zones ! k) \<le> e \<and> e \<le> snd (zones ! k)) \<longrightarrow>
                 fst (zones ! r) \<le> e \<and> e \<le> snd (zones ! r)
               \<and> (\<forall>k. 1 \<le> k \<and> k < r \<longrightarrow> \<not> (fst (zones ! k) \<le> e \<and> e \<le> snd (zones ! k))))
           \<and> (\<not> (\<exists>k. 1 \<le> k \<and> k \<le> N \<and> fst (zones ! k) \<le> e \<and> e \<le> snd (zones ! k)) \<longrightarrow>
                 (\<forall>k. 1 \<le> k \<and> k \<le> N \<longrightarrow>
                    \<bar>e - (fst (zones ! r) + snd (zones ! r)) / 2\<bar>
                      \<le> \<bar>e - (fst (zones ! k) + snd (zones ! k)) / 2\<bar>)
               \<and> (\<forall>k. 1 \<le> k \<and> k < r \<longrightarrow>
                    \<bar>e - (fst (zones ! r) + snd (zones ! r)) / 2\<bar>
                      < \<bar>e - (fst (zones ! k) + snd (zones ! k)) / 2\<bar>))"
proof -
  from len obtain z0 cz where zones: "zones = z0 # cz" and lcz: "length cz = N"
    by (cases zones) auto
  have nth: "zones ! Suc j = cz ! j" for j by (simp add: zones)
  have ex_iff: "(\<exists>k. 1 \<le> k \<and> k \<le> N \<and> fst (zones ! k) \<le> e \<and> e \<le> snd (zones ! k))
      \<longleftrightarrow> (\<exists>z \<in> set cz. fst z \<le> e \<and> e \<le> snd z)" (is "?L \<longleftrightarrow> ?R")
  proof
    assume ?L
    then obtain k where k: "1 \<le> k" "k \<le> N" "fst (zones ! k) \<le> e" "e \<le> snd (zones ! k)" by blast
    then obtain j where j: "k = Suc j" by (cases k) auto
    with k lcz have "cz ! j \<in> set cz" by simp
    with k j nth show ?R by auto
  next
    assume ?R
    then obtain j where j: "j < length cz" "fst (cz ! j) \<le> e" "e \<le> snd (cz ! j)"
      by (auto simp: in_set_conv_nth)
    then show ?L using lcz nth by (intro exI [of _ "Suc j"]) auto
  qed
  show ?thesis
  proof (cases "first_containing e cz 0")
    case (Some r)
    from first_containing_Some [OF Some] obtain k where k: "k < length cz" "r = k + 1"
      "fst (cz ! k) \<le> e" "e \<le> snd (cz ! k)"
      "\<forall>k' < k. \<not> (fst (cz ! k') \<le> e \<and> e \<le> snd (cz ! k'))" by auto
    have r: "r = Suc k" using k(2) by simp
    have s: "assign_elevation_to_zone_simple e zones = Inr r"
      by (simp add: assign_elevation_to_zone_simple_def zones Some)
    have m: "assign_elevation_to_zone e zones = r"
      by (simp add: assign_elevation_to_zone_def zones Some)
    have before: "\<not> (fst (zones ! j) \<le> e \<and> e \<le> snd (zones ! j))" if "1 \<le> j \<and> j < r" for j
    proof -
      from that obtain j' where "j = Suc j'" by (cases j) auto
      with that r k(5) nth show ?thesis by auto
    qed
    have "?R" using k(1,3,4) nth_mem by blast
    with s m k r lcz nth before ex_iff show ?thesis
      by (intro exI [of _ r]) auto
  next
    case None
    then have notin: "\<not> (\<exists>z \<in> set cz. fst z \<le> e \<and> e \<le> snd z)"
      by (simp add: first_containing_None)
    from N lcz have ne: "cz \<noteq> []" by auto
    let ?ds = "center_distances e cz"
    from ne have dne: "?ds \<noteq> []" by simp
    from list_index_min [OF dne] obtain k where k: "k < length ?ds"
      "list_index ?ds (min_list ?ds) = Inr k"
      "\<forall>j < length ?ds. ?ds ! k \<le> ?ds ! j" "\<forall>j < k. ?ds ! k < ?ds ! j" by blast
    have lds: "length ?ds = N" by (simp add: center_distances_def lcz)
    have s: "assign_elevation_to_zone_simple e zones = Inr (Suc k)"
      using dne k(2) by (simp add: assign_elevation_to_zone_simple_def zones None py_min_def)
    have m: "assign_elevation_to_zone e zones = Suc k"
      using k(2) by (simp add: assign_elevation_to_zone_def zones None nearest_scan_None [OF ne])
    have d: "?ds ! j = \<bar>e - (fst (zones ! Suc j) + snd (zones ! Suc j)) / 2\<bar>" if "j < N" for j
      using that lcz by (simp add: center_distances_nth nth)
    have le: "\<bar>e - (fst (zones ! Suc k) + snd (zones ! Suc k)) / 2\<bar>
          \<le> \<bar>e - (fst (zones ! j) + snd (zones ! j)) / 2\<bar>" if "1 \<le> j \<and> j \<le> N" for j
    proof -
      from that obtain j' where j': "j = Suc j'" "j' < N" by (cases j) auto
      from k(3) j'(2) lds have "?ds ! k \<le> ?ds ! j'" by simp
      with k(1) j' lds d [of k] d [of j'] show ?thesis by simp
    qed
    have lt: "\<bar>e - (fst (zones ! Suc k) + snd (zones ! Suc k)) / 2\<bar>
          < \<bar>e - (fst (zones ! j) + snd (zones ! j)) / 2\<bar>" if "1 \<le> j \<and> j < Suc k" for j
    proof -
      from that obtain j' where j': "j = Suc j'" "j' < k" by (cases j) auto
      from k(4) j'(2) have "?ds ! k < ?ds ! j'" by simp
      with k(1) j' lds d [of k] d [of j'] show ?thesis by simp
    qed
    from s m k(1) lds le lt notin ex_iff show ?thesis
      by (intro exI [of _ "Suc k"]) auto
  qed
qed

theorem assign_elevation_to_zone_total_witness:
  "length [(0, 10), (0, 5), (5, 10 :: real)] = 2 + 1 \<and> (1::nat) \<le> 2
   \<and> assign_elevation_to_zone_simple 5 [(0, 10), (0, 5), (5, 10)] = Inr 1
   \<and> assign_elevation_to_zone 5 [(0, 10), (0, 5), (5, 10)] = 1
   \<and> assign_elevation_to_zone_simple 12 [(0, 10), (0, 5), (5, 10)] = Inr 2
   \<and> assign_elevation_to_zone 12 [(0, 10), (0, 5), (5, 10)] = 2"
  using assign_elevation_to_zone_total [of "[(0, 10), (0, 5), (5, 10)]" 2 5]
        assign_elevation_to_zone_total [of "[(0, 10), (0, 5), (5, 10)]" 2 12]
  by (simp add: assign_elevation_to_zone_simple_def assign_elevation_to_zone_def
        center_distances_def py_min_def)

section \<open>Properties of the colour zones\<close>








section \<open>Functions that always return\<close>






section \<open>Properties of sharp height stepping\<close>
















section \<open>Properties of configuration validation\<close>

lemma lower_stl: "lower ''stl'' = ''stl''"
  by (simp add: lower_def lower_char_def)

lemma validate_example_config: "validate example_config = Inr ()"
  by (simp add: validate_def example_config_def lower_stl valid_formats_def truthy_str_def)

text \<open>
  With colours switched off the number of colours is not looked at, and with height
  stepping switched off the step height is not looked at: a configuration with
  \<open>num_colors = 0\<close> and \<open>step_height_mm = -1\<close> passes validation and the request goes
  on to the pipeline.
\<close>

theorem validate_ignores_disabled_sections:
  "num_colors (colors (terrain (example_config
      \<lparr>terrain := (terrain example_config)
         \<lparr>colors := (colors (terrain example_config))\<lparr>num_colors := 0\<rparr>,
          height_stepping := (height_stepping (terrain example_config))\<lparr>step_height_mm := -1\<rparr>\<rparr>\<rparr>))) = 0
   \<and> validate (example_config
      \<lparr>terrain := (terrain example_config)
         \<lparr>colors := (colors (terrain example_config))\<lparr>num_colors := 0\<rparr>,
          height_stepping := (height_stepping (terrain example_config))\<lparr>step_height_mm := -1\<rparr>\<rparr>\<rparr>) = Inr ()
   \<and> main False False (example_config
      \<lparr>terrain := (terrain example_config)
         \<lparr>colors := (colors (terrain example_config))\<lparr>num_colors := 0\<rparr>,
          height_stepping := (height_stepping (terrain example_config))\<lparr>step_height_mm := -1\<rparr>\<rparr>\<rparr>)
        (\<lambda>c. Inr (num_colors (colors (terrain c)))) = Inr (Completed 0)"
  by (simp add: validate_def main_def example_config_def lower_stl valid_formats_def truthy_str_def)

text \<open>
  C9 (amended). Validation raises when colours are enabled and \<open>num_colors\<close> is outside
  \<open>[1, 6]\<close>, when height stepping is enabled and the step height is not positive, or
  when bounds are given with \<open>north \<le> south\<close> or \<open>east \<le> west\<close>. For a generation
  request (neither cache command) \<open>main\<close> then fails with a \<open>ClickException\<close> whatever
  the rest of the request would do: the pipeline is not run.
\<close>

theorem validate_rejects_bad_config:
  assumes "(colors_enabled (colors (terrain c))
              \<and> (num_colors (colors (terrain c)) < 1 \<or> 6 < num_colors (colors (terrain c))))
         \<or> (hs_enabled (height_stepping (terrain c))
              \<and> step_height_mm (height_stepping (terrain c)) \<le> 0)
         \<or> (\<exists>b. bounds (location c) = Some b \<and> (north b \<le> south b \<or> east b \<le> west b))"
  shows "validate c = Inl ValueError
       \<and> main False False c pipeline = Inl (ClickException ValueError)"
proof -
  have "validate c = Inl ValueError"
    using assms unfolding validate_def by (auto split: option.splits)
  then show ?thesis by (simp add: main_def)
qed

theorem validate_rejects_bad_config_witness:
  "validate (example_config
      \<lparr>terrain := (terrain example_config)
         \<lparr>colors := (colors (terrain example_config))\<lparr>colors_enabled := True, num_colors := 7\<rparr>\<rparr>\<rparr>)
     = Inl ValueError
   \<and> main False False (example_config
      \<lparr>terrain := (terrain example_config)
         \<lparr>colors := (colors (terrain example_config))\<lparr>colors_enabled := True, num_colors := 7\<rparr>\<rparr>\<rparr>)
        (\<lambda>c. Inr (0 :: nat)) = Inl (ClickException ValueError)"
  using validate_rejects_bad_config [of "example_config
      \<lparr>terrain := (terrain example_config)
         \<lparr>colors := (colors (terrain example_config))\<lparr>colors_enabled := True, num_colors := 7\<rparr>\<rparr>\<rparr>"
      "\<lambda>c. Inr (0 :: nat)"]
  by (simp add: example_config_def)

section \<open>Properties of the vertex colours\<close>





section \<open>Normalisation with a zero planar extent\<close>














section \<open>Properties of the multi-layer output\<close>

subsection \<open>Layer names are distinct\<close>













subsection \<open>The loops return\<close>









subsection \<open>The dictionary of layers\<close>











end
